theory Spec2Isabelle
  imports Main "HOL-Library.Multiset" "HOL-Library.Sublist"
begin

section \<open>sshjump: a shallow embedding\<close>

text \<open>
  The development follows the Go sources file by file: \<^verbatim>\<open>jump.go\<close> (jump records, the
  jumpfile reader, the shuffle), \<^verbatim>\<open>jumpconn.go\<close> (the chain builder, the dial primitive,
  the keepalive driver) and the connection registry. Go strings are byte strings
  (\<^typ>\<open>string\<close>); Go errors are values of \<open>go_error\<close>; a run-time panic is a value of
  \<open>panic\<close>. Everything the program obtains from outside (file contents, the outcome of
  a dial, of a handshake, of a probe, a random draw) is an explicit argument.
\<close>

subsection \<open>Errors and panics\<close>

text \<open>\<^verbatim>\<open>ssh.RejectionReason\<close>: the reason codes of an open-channel rejection.\<close>

datatype rejection_reason = Prohibited | ConnectionFailed | UnknownChannelType | ResourceShortage

text \<open>
  The error values that occur: the four \<^verbatim>\<open>fmt.Errorf\<close> texts of \<^verbatim>\<open>jumpconn.go\<close>, the one of
  \<^verbatim>\<open>jump.go\<close>, the library's \<^verbatim>\<open>*ssh.OpenChannelError\<close>, and any other error with its text.
\<close>

datatype go_error =
    Interrupt
  | Timeout
  | InsufficientJumps nat nat
  | NoWorkingJumps
  | NoJumpsIn string
  | OpenChannelError rejection_reason string
  | OtherError string

text \<open>An index expression \<^verbatim>\<open>s[i]\<close> out of range panics; the panic carries index and length.\<close>

datatype panic = IndexOutOfRange int nat

definition index :: "'a list \<Rightarrow> nat \<Rightarrow> panic + 'a" where
  "index xs i = (if i < length xs then Inr (xs ! i) else Inl (IndexOutOfRange (int i) (length xs)))"

subsection \<open>jump.go: jump records and the jumpfile reader\<close>

datatype signer = Signer string

record jump =
  username :: string
  host :: string
  password :: string
  version :: string
  key :: "signer option"

definition KEYPREFIX :: string where
  "KEYPREFIX = ''key:''"

text \<open>\<^verbatim>\<open>strings.HasPrefix\<close>, \<^verbatim>\<open>strings.TrimPrefix\<close>, \<^verbatim>\<open>strings.HasSuffix\<close>.\<close>

definition HasPrefix :: "string \<Rightarrow> string \<Rightarrow> bool" where
  "HasPrefix s p = (take (length p) s = p)"

definition TrimPrefix :: "string \<Rightarrow> string \<Rightarrow> string" where
  "TrimPrefix s p = (if HasPrefix s p then drop (length p) s else s)"

definition HasSuffix :: "string \<Rightarrow> string \<Rightarrow> bool" where
  "HasSuffix s p = (length p \<le> length s \<and> drop (length s - length p) s = p)"

text \<open>\<^verbatim>\<open>strings.Split(s, "\n")\<close>: the pieces between the newlines, one more than there are newlines.\<close>

fun Split_newline :: "string \<Rightarrow> string list" where
  "Split_newline [] = [[]]"
| "Split_newline (c # s) =
     (if c = CHR 0x0A then [] # Split_newline s
      else (case Split_newline s of [] \<Rightarrow> [[c]] | l # ls \<Rightarrow> (c # l) # ls))"

text \<open>
  \<^verbatim>\<open>strings.TrimSpace\<close> removes leading and trailing white space. The model knows the
  white space of the ASCII range (tab, newline, vertical tab, form feed, carriage return, space).
\<close>

definition unicode_space :: "char \<Rightarrow> bool" where
  "unicode_space c = (c \<in> {CHR 0x09, CHR 0x0A, CHR 0x0B, CHR 0x0C, CHR 0x0D, CHR '' ''})"

definition TrimSpace :: "string \<Rightarrow> string" where
  "TrimSpace s = rev (dropWhile unicode_space (rev (dropWhile unicode_space s)))"

text \<open>The class \<^verbatim>\<open>\s\<close> of Go's regular expressions: tab, newline, form feed, carriage return, space.\<close>

definition re_space :: "char \<Rightarrow> bool" where
  "re_space c = (c \<in> {CHR 0x09, CHR 0x0A, CHR 0x0C, CHR 0x0D, CHR '' ''})"

text \<open>
  \<^verbatim>\<open>JUMPRE.FindStringSubmatch(l)\<close> for
  \<^verbatim>\<open>JUMPRE = ^([^@]+)@(\S+)\s+(.*)\s(SSH-\S+)$\<close>, on a line without newline (the lines come
  from \<open>Split_newline\<close>). The result is the empty list (Go's \<^verbatim>\<open>nil\<close>) when the line does
  not match, and the whole match with the four groups otherwise. The match is unique:
  group 1 is what precedes the first \<^verbatim>\<open>@\<close>, group 2 the run of non-space after it, group 4
  what follows the last white space, and group 3 what lies between the white space after
  group 2 and that last white space character.
\<close>

definition JUMPRE_FindStringSubmatch :: "string \<Rightarrow> string list" where
  "JUMPRE_FindStringSubmatch l =
     (let u = takeWhile (\<lambda>c. c \<noteq> CHR ''@'') l;
          r = drop (length u + 1) l;
          h = takeWhile (\<lambda>c. \<not> re_space c) r;
          r2 = dropWhile (\<lambda>c. \<not> re_space c) r;
          ver = rev (takeWhile (\<lambda>c. \<not> re_space c) (rev r2));
          mid = take (length r2 - length ver - 1) r2
      in if length u < length l \<and> u \<noteq> [] \<and> h \<noteq> [] \<and> r2 \<noteq> [] \<and> mid \<noteq> []
            \<and> HasPrefix ver ''SSH-'' \<and> 4 < length ver
         then [l, u, h, dropWhile re_space mid, ver]
         else [])"

text \<open>
  What \<^verbatim>\<open>getKey\<close> needs from the operating system and the libraries: \<^verbatim>\<open>ioutil.ReadFile\<close>,
  \<^verbatim>\<open>ssh.ParsePrivateKey\<close>, \<^verbatim>\<open>filepath.IsAbs\<close> and \<^verbatim>\<open>filepath.Join\<close>.
\<close>

record os_env =
  ReadFile :: "string \<Rightarrow> go_error + string"
  ParsePrivateKey :: "string \<Rightarrow> go_error + signer"
  IsAbs :: "string \<Rightarrow> bool"
  Join :: "string \<Rightarrow> string \<Rightarrow> string"

definition getKey :: "os_env \<Rightarrow> string \<Rightarrow> string \<Rightarrow> go_error + signer" where
  "getKey e keydir keyfile =
     (let keyfile' = (if \<not> IsAbs e keyfile then Join e keydir keyfile else keyfile)
      in case ReadFile e keyfile' of
           Inl err \<Rightarrow> Inl err
         | Inr b \<Rightarrow> ParsePrivateKey e b)"

text \<open>The lines \<^verbatim>\<open>ReadJumps\<close> writes to the log.\<close>

datatype log_line =
    InvalidLine string
  | UnableToRetrieveKey string string string go_error

text \<open>
  The result of a call: what it returns (a value or an error), or the panic that ends it.
\<close>

datatype 'a go_result = Ok 'a | Err go_error | Panic panic

text \<open>
  The loop of \<^verbatim>\<open>ReadJumps\<close> over the lines, with the list \<open>js\<close> built so far and the log.
  A line that does not match is logged; the code then goes on to build the jump from
  \<^verbatim>\<open>ms[1]\<close>, \<^verbatim>\<open>ms[2]\<close>, \<^verbatim>\<open>ms[3]\<close>, \<^verbatim>\<open>ms[4]\<close>, each a checked index expression.
\<close>

fun ReadJumps_loop ::
  "os_env \<Rightarrow> string \<Rightarrow> string list \<Rightarrow> jump list \<Rightarrow> log_line list \<Rightarrow> (panic + jump list) \<times> log_line list"
where
  "ReadJumps_loop e keydir [] js lg = (Inr js, lg)"
| "ReadJumps_loop e keydir (l0 # ls) js lg =
     (let l = TrimSpace l0 in
      if l = [] \<or> HasPrefix l ''#'' then ReadJumps_loop e keydir ls js lg
      else
        let ms = JUMPRE_FindStringSubmatch l;
            lg1 = (if ms = [] then lg @ [InvalidLine l] else lg)
        in case index ms 1 of Inl p \<Rightarrow> (Inl p, lg1) | Inr m1 \<Rightarrow>
          (case index ms 2 of Inl p \<Rightarrow> (Inl p, lg1) | Inr m2 \<Rightarrow>
          (case index ms 3 of Inl p \<Rightarrow> (Inl p, lg1) | Inr m3 \<Rightarrow>
          (case index ms 4 of Inl p \<Rightarrow> (Inl p, lg1) | Inr m4 \<Rightarrow>
            (let j = \<lparr>username = m1, host = m2, password = m3, version = m4, key = None\<rparr> in
             if HasPrefix (password j) KEYPREFIX then
               (let kf = TrimPrefix (password j) KEYPREFIX in
                case getKey e keydir kf of
                  Inl err \<Rightarrow>
                    ReadJumps_loop e keydir ls (js @ [j])
                      (lg1 @ [UnableToRetrieveKey (username j) (host j) kf err])
                | Inr k \<Rightarrow> ReadJumps_loop e keydir ls (js @ [j\<lparr>key := Some k\<rparr>]) lg1)
             else ReadJumps_loop e keydir ls (js @ [j]) lg1)))))"

definition ReadJumps :: "os_env \<Rightarrow> string \<Rightarrow> string \<Rightarrow> jump list go_result \<times> log_line list" where
  "ReadJumps e fname keydir =
     (case ReadFile e fname of
        Inl err \<Rightarrow> (Err err, [])
      | Inr jf \<Rightarrow>
          (case ReadJumps_loop e keydir (Split_newline jf) [] [] of
             (Inl p, lg) \<Rightarrow> (Panic p, lg)
           | (Inr js, lg) \<Rightarrow> (if length js = 0 then (Err (NoJumpsIn fname), lg) else (Ok js, lg))))"

text \<open>
  \<^verbatim>\<open>ShuffleJumps\<close>. \<^verbatim>\<open>rand.Intn(n)\<close> returns some number below \<open>n\<close>: the draw made at
  index \<open>i\<close> is \<open>rnd i\<close>, reduced into the range.
\<close>

definition rand_Intn :: "(nat \<Rightarrow> nat) \<Rightarrow> nat \<Rightarrow> nat \<Rightarrow> nat" where
  "rand_Intn rnd i n = rnd i mod n"

function ShuffleJumps_loop :: "(nat \<Rightarrow> nat) \<Rightarrow> nat \<Rightarrow> 'a list \<Rightarrow> 'a list" where
  "ShuffleJumps_loop rnd i s =
     (if i < length s
      then (let j = rand_Intn rnd i (i + 1)
            in ShuffleJumps_loop rnd (i + 1) (s[i := s ! j, j := s ! i]))
      else s)"
  by pat_completeness auto
termination
  by (relation "measure (\<lambda>(rnd, i, s). length s - i)") auto

declare ShuffleJumps_loop.simps [simp del]

definition ShuffleJumps :: "(nat \<Rightarrow> nat) \<Rightarrow> jump list \<Rightarrow> jump list" where
  "ShuffleJumps rnd s = ShuffleJumps_loop rnd 0 s"

subsection \<open>jumpconn.go: host and port\<close>

definition DEFPORT :: string where
  "DEFPORT = ''22''"

text \<open>
  The standard library's \<^verbatim>\<open>net.SplitHostPort\<close> and \<^verbatim>\<open>net.JoinHostPort\<close>, written out after
  the library's code: the port starts after the last colon; a host that starts with
  \<^verbatim>\<open>[\<close> must close its bracket just before that colon; any other host must be free of
  colons; no further bracket may occur. The error is the library's \<^verbatim>\<open>AddrError\<close> with
  the reason as its text.
\<close>

definition first_index :: "char \<Rightarrow> string \<Rightarrow> nat option" where
  "first_index c s = (if c \<in> set s then Some (length (takeWhile (\<lambda>x. x \<noteq> c) s)) else None)"

definition last_index :: "char \<Rightarrow> string \<Rightarrow> nat option" where
  "last_index c s =
     (if c \<in> set s then Some (length s - 1 - length (takeWhile (\<lambda>x. x \<noteq> c) (rev s))) else None)"

definition bracket_check :: "string \<Rightarrow> nat \<Rightarrow> nat \<Rightarrow> nat \<Rightarrow> string \<Rightarrow> go_error + string \<times> string" where
  "bracket_check hostport j k i hst =
     (if CHR ''['' \<in> set (drop j hostport) then Inl (OtherError ''unexpected '[' in address'')
      else if CHR '']'' \<in> set (drop k hostport) then Inl (OtherError ''unexpected ']' in address'')
      else Inr (hst, drop (i + 1) hostport))"

definition SplitHostPort :: "string \<Rightarrow> go_error + string \<times> string" where
  "SplitHostPort hostport =
     (case last_index CHR '':'' hostport of
        None \<Rightarrow> Inl (OtherError ''missing port in address'')
      | Some i \<Rightarrow>
          if take 1 hostport = ''[''
          then (case first_index CHR '']'' hostport of
                  None \<Rightarrow> Inl (OtherError ''missing ']' in address'')
                | Some e \<Rightarrow>
                    if e + 1 = length hostport then Inl (OtherError ''missing port in address'')
                    else if e + 1 = i then bracket_check hostport 1 (e + 1) i (take (e - 1) (drop 1 hostport))
                    else if hostport ! (e + 1) = CHR '':''
                      then Inl (OtherError ''too many colons in address'')
                      else Inl (OtherError ''missing port in address''))
          else if CHR '':'' \<in> set (take i hostport)
            then Inl (OtherError ''too many colons in address'')
            else bracket_check hostport 0 0 i (take i hostport))"

definition JoinHostPort :: "string \<Rightarrow> string \<Rightarrow> string" where
  "JoinHostPort hst port =
     (if CHR '':'' \<in> set hst then ''['' @ hst @ '']:'' @ port else hst @ '':'' @ port)"

text \<open>
  ``Make sure the address has a port'': the value of \<^verbatim>\<open>j.host\<close> after the two statements
  that follow the connection string in the loop of \<^verbatim>\<open>MakeSSHConns\<close>.
\<close>

definition hostWithPort :: "string \<Rightarrow> string" where
  "hostWithPort h =
     (case SplitHostPort h of
        Inl err \<Rightarrow> JoinHostPort h DEFPORT
      | Inr (hst, p) \<Rightarrow> if p = [] then JoinHostPort h DEFPORT else h)"

subsection \<open>jumpconn.go: the client configuration of a handshake\<close>

type_synonym KeyboardInteractiveChallenge =
  "string \<Rightarrow> string \<Rightarrow> string list \<Rightarrow> bool list \<Rightarrow> string list \<times> go_error option"

datatype AuthMethod =
    Password string
  | KeyboardInteractive KeyboardInteractiveChallenge
  | PublicKeys "signer list"

record ClientConfig =
  User :: string
  Auth :: "AuthMethod list"
  ClientVersion :: string

text \<open>The keyboard-interactive function \<^verbatim>\<open>ki\<close>, a closure over the jump \<open>j\<close>.\<close>

definition ki :: "jump \<Rightarrow> KeyboardInteractiveChallenge" where
  "ki j user instruction questions echos = ([password j], None)"

definition clientConfig :: "jump \<Rightarrow> ClientConfig" where
  "clientConfig j =
     \<lparr>User = username j,
      Auth = [Password (password j), KeyboardInteractive (ki j)],
      ClientVersion = version j\<rparr>"

text \<open>The kind of an authentication method, and the answers of its challenge function.\<close>

datatype auth_kind = PasswordAuth | KeyboardInteractiveAuth | PublicKeyAuth

fun auth_kind_of :: "AuthMethod \<Rightarrow> auth_kind" where
  "auth_kind_of (Password p) = PasswordAuth"
| "auth_kind_of (KeyboardInteractive f) = KeyboardInteractiveAuth"
| "auth_kind_of (PublicKeys ks) = PublicKeyAuth"

subsection \<open>jumpconn.go: the chain builder\<close>

text \<open>\<^verbatim>\<open>err.Error()\<close>, the text of an error.\<close>

function show_nat :: "nat \<Rightarrow> string" where
  "show_nat n =
     (if n < 10 then [char_of (48 + n)] else show_nat (n div 10) @ [char_of (48 + n mod 10)])"
  by pat_completeness auto
termination
  by (relation "measure (\<lambda>n. n)") auto

declare show_nat.simps [simp del]

fun reason_String :: "rejection_reason \<Rightarrow> string" where
  "reason_String Prohibited = ''administratively prohibited''"
| "reason_String ConnectionFailed = ''connect failed''"
| "reason_String UnknownChannelType = ''unknown channel type''"
| "reason_String ResourceShortage = ''resource shortage''"

fun Error :: "go_error \<Rightarrow> string" where
  "Error Interrupt = ''interrupt''"
| "Error Timeout = ''timeout''"
| "Error (InsufficientJumps made n) =
     ''insufficient SSH jumps (only made '' @ show_nat made @ ''/'' @ show_nat n @ '')''"
| "Error NoWorkingJumps = ''no working jumps found''"
| "Error (NoJumpsIn fname) = ''no jumps in '' @ fname"
| "Error (OpenChannelError r msg) = ''ssh: rejected: '' @ reason_String r @ '' ('' @ msg @ '')''"
| "Error (OtherError msg) = msg"

definition isSSHForwardErr :: "go_error \<Rightarrow> bool" where
  "isSSHForwardErr err =
     (case err of
        OpenChannelError r msg \<Rightarrow> r = Prohibited
      | _ \<Rightarrow> HasSuffix (Error err) ''ssh: unexpected packet in response to channel open: <nil>'')"

text \<open>
  A dialer is the operating system's (\<^verbatim>\<open>&net.Dialer{}\<close>) or an SSH client. The client
  made in the iteration with index \<open>i\<close> of the loop over the jumps is the client \<open>i\<close>, and
  the transport dialed there is the connection \<open>i\<close>.
\<close>

datatype dialer = NetDialer | ClientDialer nat

text \<open>What the builder does to the world, in order.\<close>

datatype event =
    DialWithTimeout dialer string
  | NewClientConn nat string ClientConfig bool
  | ConnClose nat
  | ClientClose nat
  | TestExit nat string bool
  | SendKeepalives nat int

text \<open>
  What the world does to the builder: whether \<^verbatim>\<open>ctx.Err()\<close> is set at the check of
  iteration \<open>i\<close> (the check after the loop has the index \<open>length jumps\<close>), the error of the
  dial of iteration \<open>i\<close> if any, whether the handshake of iteration \<open>i\<close> succeeds, and
  whether the test connection made in iteration \<open>i\<close> (or after the loop) succeeds.
\<close>

record world =
  ctxErr :: "nat \<Rightarrow> bool"
  dialErr :: "nat \<Rightarrow> go_error option"
  handshakeOK :: "nat \<Rightarrow> bool"
  exitOK :: "nat \<Rightarrow> bool"

text \<open>\<^verbatim>\<open>cs[len(cs)-1]\<close>, which panics on the empty slice.\<close>

definition lastOf :: "'a list \<Rightarrow> panic + 'a" where
  "lastOf cs = (if cs = [] then Inl (IndexOutOfRange (- 1) 0) else Inr (last cs))"

definition CloseJumps :: "nat list \<Rightarrow> event list" where
  "CloseJumps cs = map ClientClose (rev cs)"

definition testExit :: "world \<Rightarrow> nat \<Rightarrow> nat \<Rightarrow> string \<Rightarrow> bool \<times> event list" where
  "testExit w i sc target = (exitOK w i, [TestExit sc target (exitOK w i)])"

definition removeLastJump :: "nat list \<Rightarrow> panic + dialer \<times> nat list \<times> event list" where
  "removeLastJump cs =
     (case lastOf cs of
        Inl p \<Rightarrow> Inl p
      | Inr c \<Rightarrow>
          (let cs' = butlast cs
           in if length cs' = 0 then Inr (NetDialer, cs', [ClientClose c])
              else Inr (ClientDialer (last cs'), cs', [ClientClose c])))"

text \<open>
  How one pass through the body of the loop over the jumps ends, and how the loop ends:
  with a \<^verbatim>\<open>return\<close> (or a panic), or by going on (\<^verbatim>\<open>continue\<close>, or the end of the body)
  with the dialer, chain and trace it has then.
\<close>

datatype loop_exit =
    Return "nat list go_result" "event list"
  | Next dialer "nat list" "event list"

text \<open>
  The body of the loop, for the jump \<open>j0\<close> in the iteration with index \<open>i\<close>: the
  cancellation check, the port, the dial, the handshake, and the test of the exit once
  the chain has \<open>njump\<close> clients. The lines written to the log are left out. The
  goroutine that closes the transport when the handshake takes too long or the context
  is cancelled makes the handshake fail; the transport is closed in that branch.
\<close>

definition MakeSSHConns_body ::
  "world \<Rightarrow> nat \<Rightarrow> int \<Rightarrow> string \<Rightarrow> jump \<Rightarrow> nat \<Rightarrow> dialer \<Rightarrow> nat list \<Rightarrow> event list \<Rightarrow> loop_exit"
where
  "MakeSSHConns_body w njump kaint exitTest j0 i d cs tr =
     (if ctxErr w i then Return (Err Interrupt) (tr @ CloseJumps cs)
      else
        let j = j0\<lparr>host := hostWithPort (host j0)\<rparr>;
            tr1 = tr @ [DialWithTimeout d (host j)]
        in case dialErr w i of
             Some err \<Rightarrow>
               if isSSHForwardErr err
               then (case removeLastJump cs of
                       Inl p \<Rightarrow> Return (Panic p) tr1
                     | Inr (d', cs', ev) \<Rightarrow> Next d' cs' (tr1 @ ev))
               else Next d cs tr1
           | None \<Rightarrow>
               let tr2 = tr1 @ [NewClientConn i (host j) (clientConfig j) (handshakeOK w i)]
               in if \<not> handshakeOK w i
                  then Next d cs (tr2 @ [ConnClose i])
                  else
                    let cs1 = cs @ [i]
                    in if njump \<noteq> 0 \<and> njump \<le> length cs1
                       then (case lastOf cs1 of
                               Inl p \<Rightarrow> Return (Panic p) tr2
                             | Inr c \<Rightarrow>
                                 (case testExit w i c exitTest of
                                    (ok, ev) \<Rightarrow>
                                      if ok
                                      then Return (Ok cs1) (tr2 @ ev @ [SendKeepalives c kaint])
                                      else (case removeLastJump cs1 of
                                              Inl p \<Rightarrow> Return (Panic p) (tr2 @ ev)
                                            | Inr (d', cs', ev') \<Rightarrow> Next d' cs' (tr2 @ ev @ ev'))))
                       else Next (ClientDialer i) cs1 tr2)"

fun MakeSSHConns_loop ::
  "world \<Rightarrow> nat \<Rightarrow> int \<Rightarrow> string \<Rightarrow> jump list \<Rightarrow> nat \<Rightarrow> dialer \<Rightarrow> nat list \<Rightarrow> event list \<Rightarrow> loop_exit"
where
  "MakeSSHConns_loop w njump kaint exitTest [] i d cs tr = Next d cs tr"
| "MakeSSHConns_loop w njump kaint exitTest (j0 # js) i d cs tr =
     (case MakeSSHConns_body w njump kaint exitTest j0 i d cs tr of
        Return r tr' \<Rightarrow> Return r tr'
      | Next d' cs' tr' \<Rightarrow> MakeSSHConns_loop w njump kaint exitTest js (i + 1) d' cs' tr')"


definition MakeSSHConns ::
  "world \<Rightarrow> jump list \<Rightarrow> nat \<Rightarrow> int \<Rightarrow> string \<Rightarrow> nat list go_result \<times> event list"
where
  "MakeSSHConns w jumps njump kaint exitTest =
     (case MakeSSHConns_loop w njump kaint exitTest jumps 0 NetDialer [] [] of
        Return r tr \<Rightarrow> (r, tr)
      | Next d cs tr \<Rightarrow>
          if ctxErr w (length jumps) then (Err Interrupt, tr)
          else if njump \<noteq> 0 \<and> length cs < njump
            then (Err (InsufficientJumps (length cs) njump), tr @ CloseJumps cs)
          else (case lastOf cs of
                  Inl p \<Rightarrow> (Panic p, tr)
                | Inr c \<Rightarrow>
                    (case testExit w (length jumps) c exitTest of
                       (ok, ev) \<Rightarrow>
                         if ok then (Ok cs, tr @ ev)
                         else if length cs = 1 then (Err NoWorkingJumps, tr @ ev)
                         else (case removeLastJump cs of
                                 Inl p \<Rightarrow> (Panic p, tr @ ev)
                               | Inr (d', cs', ev') \<Rightarrow>
                                   (case lastOf cs' of
                                      Inl p \<Rightarrow> (Panic p, tr @ ev @ ev')
                                    | Inr c' \<Rightarrow>
                                        (Ok cs', tr @ ev @ ev' @ [SendKeepalives c' kaint]))))))"

text \<open>
  The clients that are open after a trace: a handshake that succeeds opens its client,
  a \<^verbatim>\<open>Close\<close> of a client closes it.
\<close>

fun track :: "nat list \<Rightarrow> event \<Rightarrow> nat list" where
  "track cl (NewClientConn i a cfg ok) = (if ok then cl @ [i] else cl)"
| "track cl (ClientClose c) = filter (\<lambda>x. x \<noteq> c) cl"
| "track cl e = cl"

definition openClients :: "event list \<Rightarrow> nat list" where
  "openClients tr = foldl track [] tr"



subsection \<open>jumpconn.go: dialWithTimeout and killConnFromChannel\<close>

text \<open>
  \<^verbatim>\<open>dialWithTimeout\<close> runs three threads of control over two unbuffered channels,
  \<^verbatim>\<open>ech\<close> and \<^verbatim>\<open>worky\<close>: the goroutine that dials and then sends the error on \<^verbatim>\<open>ech\<close>
  and the connection on \<^verbatim>\<open>worky\<close>, in this order; the caller in its \<^verbatim>\<open>select\<close>; and the
  goroutine \<^verbatim>\<open>killConnFromChannel(worky)\<close> that the caller starts before it returns
  without a connection. A send on an unbuffered channel completes only together with a
  receive on the same channel. The model is the transition system of these threads: a
  state holds where each of them stands, and the connections closed so far.
\<close>

text \<open>What \<^verbatim>\<open>d.Dial\<close> returns: a connection (and no error) or an error (and no connection).\<close>

datatype dial_return = DialConn nat | DialFailed go_error

datatype dial_goroutine = Dialing | SendingErr dial_return | SendingConn dial_return | DialDone

datatype dial_caller = Selecting | ReceivingConn | Returned "go_error + nat"

datatype dial_killer = NotStarted | ReceivingFromChannel | KillDone

record dial_state =
  goroutine :: dial_goroutine
  caller :: dial_caller
  killer :: dial_killer
  closedConns :: "nat list"

definition dial_init :: dial_state where
  "dial_init = \<lparr>goroutine = Dialing, caller = Selecting, killer = NotStarted, closedConns = []\<rparr>"

text \<open>
  The steps: the dial returns; the timer of \<^verbatim>\<open>time.After(to)\<close> fires and the caller takes
  that case; \<^verbatim>\<open>ctx.Done()\<close> is closed and the caller takes that case; the send and the
  receive on \<^verbatim>\<open>ech\<close> meet; the send and a receive on \<^verbatim>\<open>worky\<close> meet. A step that is
  not enabled in a state yields \<open>None\<close>.
\<close>

datatype dial_event = DialReturns dial_return | TimeAfter | CtxDone | OnEch | OnWorky

definition dial_step :: "dial_event \<Rightarrow> dial_state \<Rightarrow> dial_state option" where
  "dial_step ev s =
     (case ev of
        DialReturns r \<Rightarrow>
          (if goroutine s = Dialing then Some (s\<lparr>goroutine := SendingErr r\<rparr>) else None)
      | TimeAfter \<Rightarrow>
          (if caller s = Selecting
           then Some (s\<lparr>caller := Returned (Inl Timeout), killer := ReceivingFromChannel\<rparr>)
           else None)
      | CtxDone \<Rightarrow>
          (if caller s = Selecting
           then Some (s\<lparr>caller := Returned (Inl Interrupt), killer := ReceivingFromChannel\<rparr>)
           else None)
      | OnEch \<Rightarrow>
          (case goroutine s of
             SendingErr r \<Rightarrow>
               (if caller s = Selecting
                then (case r of
                        DialConn c \<Rightarrow>
                          Some (s\<lparr>goroutine := SendingConn r, caller := ReceivingConn\<rparr>)
                      | DialFailed err \<Rightarrow>
                          Some (s\<lparr>goroutine := SendingConn r, caller := Returned (Inl err),
                                  killer := ReceivingFromChannel\<rparr>))
                else None)
           | _ \<Rightarrow> None)
      | OnWorky \<Rightarrow>
          (case goroutine s of
             SendingConn r \<Rightarrow>
               (if caller s = ReceivingConn
                then (case r of
                        DialConn c \<Rightarrow> Some (s\<lparr>goroutine := DialDone, caller := Returned (Inr c)\<rparr>)
                      | DialFailed err \<Rightarrow> None)
                else if killer s = ReceivingFromChannel
                then Some (s\<lparr>goroutine := DialDone, killer := KillDone,
                             closedConns := (case r of
                                               DialConn c \<Rightarrow> closedConns s @ [c]
                                             | DialFailed err \<Rightarrow> closedConns s)\<rparr>)
                else None)
           | _ \<Rightarrow> None))"

fun dial_run :: "dial_event list \<Rightarrow> dial_state \<Rightarrow> dial_state option" where
  "dial_run [] s = Some s"
| "dial_run (ev # evs) s = (case dial_step ev s of None \<Rightarrow> None | Some s' \<Rightarrow> dial_run evs s')"

subsection \<open>jumpconn.go: sendKeepalives\<close>

text \<open>
  What the keepalive driver does: a global request on the client (name, want-reply,
  payload), a sleep, the call of \<^verbatim>\<open>cancel\<close>.
\<close>

datatype keepalive_event = SendRequest nat string bool string | Sleep int | Cancel

text \<open>
  The loop runs as long as the requests succeed, so it has fuel: \<open>None\<close> is a loop that
  still runs when the fuel is spent. \<open>reqErr n\<close> says whether the request number \<open>n\<close>
  returns an error.
\<close>

fun sendKeepalives_loop ::
  "(nat \<Rightarrow> bool) \<Rightarrow> nat \<Rightarrow> int \<Rightarrow> nat \<Rightarrow> nat \<Rightarrow> keepalive_event list \<Rightarrow> keepalive_event list option"
where
  "sendKeepalives_loop reqErr c interval 0 n tr = None"
| "sendKeepalives_loop reqErr c interval (Suc fuel) n tr =
     (let tr1 = tr @ [SendRequest c ''keepalive@openssh.com'' True []]
      in if reqErr n then Some tr1
         else sendKeepalives_loop reqErr c interval fuel (n + 1) (tr1 @ [Sleep interval]))"

definition sendKeepalives :: "(nat \<Rightarrow> bool) \<Rightarrow> nat \<Rightarrow> int \<Rightarrow> nat \<Rightarrow> keepalive_event list option" where
  "sendKeepalives reqErr c interval fuel =
     (case sendKeepalives_loop reqErr c interval fuel 0 [] of
        None \<Rightarrow> None
      | Some tr \<Rightarrow> Some (tr @ [Cancel]))"

subsection \<open>The connection registry\<close>

text \<open>
  The registry is the set \<^verbatim>\<open>conns\<close> of the keys of the map. A connection handle answers
  \<^verbatim>\<open>Close\<close> as the connections of the standard library do: the first call closes it, a
  later call returns an error. \<open>closeCalls\<close> lists the calls of \<^verbatim>\<open>Close\<close>, in order.
  The mutex serialises the operations, which the model runs one after the other.
\<close>

record registry =
  conns :: "nat set"
  closeCalls :: "nat list"

definition ErrClosed :: go_error where
  "ErrClosed = OtherError ''use of closed network connection''"

definition conn_Close :: "nat \<Rightarrow> registry \<Rightarrow> go_error option \<times> registry" where
  "conn_Close c s =
     (if c \<in> set (closeCalls s) then Some ErrClosed else None, s\<lparr>closeCalls := closeCalls s @ [c]\<rparr>)"

definition RegisterConn :: "nat \<Rightarrow> registry \<Rightarrow> registry" where
  "RegisterConn c s = s\<lparr>conns := insert c (conns s)\<rparr>"

definition closeConn :: "nat \<Rightarrow> registry \<Rightarrow> go_error option \<times> registry" where
  "closeConn c s = conn_Close c (s\<lparr>conns := conns s - {c}\<rparr>)"

definition CloseConn :: "nat \<Rightarrow> registry \<Rightarrow> go_error option \<times> registry" where
  "CloseConn c s = closeConn c s"

subsection \<open>Concrete inputs\<close>

text \<open>
  Two jump records as the jumpfile reader yields them (the second with a key), worlds in
  which every dial and handshake succeeds or none does, a jumpfile whose first line is
  not a jump, and a registry that holds one connection.
\<close>

definition jump1 :: jump where
  "jump1 = \<lparr>username = ''user'', host = ''target1'', password = ''password'',
             version = ''SSH-2.0-OpenSSH_6.7'', key = None\<rparr>"

definition jump2 :: jump where
  "jump2 = \<lparr>username = ''root'', host = ''target2:2201'', password = ''key:id_rsa'',
             version = ''SSH-2.0-X'', key = Some (Signer ''id_rsa'')\<rparr>"

definition world_up :: "(nat \<Rightarrow> bool) \<Rightarrow> (nat \<Rightarrow> bool) \<Rightarrow> world" where
  "world_up cancelled probe =
     \<lparr>ctxErr = cancelled, dialErr = (\<lambda>i. None), handshakeOK = (\<lambda>i. True), exitOK = probe\<rparr>"

definition world_down :: world where
  "world_down =
     \<lparr>ctxErr = (\<lambda>i. False), dialErr = (\<lambda>i. Some (OtherError ''connection refused'')),
      handshakeOK = (\<lambda>i. False), exitOK = (\<lambda>i. False)\<rparr>"

definition os_example :: os_env where
  "os_example =
     \<lparr>ReadFile = (\<lambda>f. if f = ''j'' then Inr (''garbage'' @ [CHR 0x0A] @ ''u@h p SSH-2.0-X'')
                       else Inl (OtherError ''no such file or directory'')),
      ParsePrivateKey = (\<lambda>b. Inr (Signer b)),
      IsAbs = (\<lambda>f. take 1 f = ''/''),
      Join = (\<lambda>a b. a @ ''/'' @ b)\<rparr>"

definition registry1 :: registry where
  "registry1 = \<lparr>conns = {1}, closeCalls = []\<rparr>"

subsection \<open>Invariants\<close>

text \<open>A chain whose clients are distinct and were made before the iteration \<open>i\<close>.\<close>

definition fresh_chain :: "nat \<Rightarrow> nat list \<Rightarrow> bool" where
  "fresh_chain i cs = (distinct cs \<and> list_all (\<lambda>c. c < i) cs)"

text \<open>
  The invariant of \<^verbatim>\<open>dialWithTimeout\<close>: no connection has been closed, and while the
  goroutine offers a connection on \<^verbatim>\<open>worky\<close> it is the caller that waits for it.
\<close>

definition dial_inv :: "dial_state \<Rightarrow> bool" where
  "dial_inv s =
     (closedConns s = [] \<and>
      (case goroutine s of SendingConn (DialConn c) \<Rightarrow> caller s = ReceivingConn | _ \<Rightarrow> True))"

text \<open>The caller of \<^verbatim>\<open>dialWithTimeout\<close> has returned an error.\<close>

definition gave_up :: "dial_state \<Rightarrow> bool" where
  "gave_up s = (case caller s of Returned (Inl e) \<Rightarrow> True | _ \<Rightarrow> False)"

section \<open>Properties\<close>

subsection \<open>The shuffle\<close>

lemma ShuffleJumps_loop_length: "length (ShuffleJumps_loop rnd i s) = length s"
proof (induction rnd i s rule: ShuffleJumps_loop.induct)
  case (1 rnd i s)
  show ?case
  proof (cases "i < length s")
    case True
    with "1" show ?thesis by (subst ShuffleJumps_loop.simps) (simp add: Let_def)
  next
    case False
    then show ?thesis by (subst ShuffleJumps_loop.simps) simp
  qed
qed

lemma ShuffleJumps_loop_mset: "mset (ShuffleJumps_loop rnd i s) = mset s"
proof (induction rnd i s rule: ShuffleJumps_loop.induct)
  case (1 rnd i s)
  show ?case
  proof (cases "i < length s")
    case True
    let ?j = "rand_Intn rnd i (i + 1)"
    from True have j: "?j < length s"
      by (simp add: rand_Intn_def) (meson less_Suc_eq_le less_le_trans mod_less_divisor not_less zero_less_Suc)
    have "mset (ShuffleJumps_loop rnd i s) = mset (s[i := s ! ?j, ?j := s ! i])"
      using True "1" by (subst ShuffleJumps_loop.simps) (simp add: Let_def)
    also have "\<dots> = mset s"
      using True j by (simp add: mset_swap)
    finally show ?thesis .
  next
    case False
    then show ?thesis by (subst ShuffleJumps_loop.simps) simp
  qed
qed

text \<open>
  C10. For every slice of jump records and every sequence of random draws, the slice
  after \<open>ShuffleJumps\<close> has the same length and the same multiset of elements as before:
  no record is lost, duplicated or altered.
\<close>

theorem ShuffleJumps_permutes:
  "length (ShuffleJumps rnd s) = length s \<and> mset (ShuffleJumps rnd s) = mset s"
  by (simp add: ShuffleJumps_def ShuffleJumps_loop_length ShuffleJumps_loop_mset)

subsection \<open>The jumpfile reader\<close>

lemma ReadJumps_loop_invalid_line:
  "TrimSpace l0 \<noteq> [] \<Longrightarrow> \<not> HasPrefix (TrimSpace l0) ''#'' \<Longrightarrow>
   JUMPRE_FindStringSubmatch (TrimSpace l0) = [] \<Longrightarrow>
   ReadJumps_loop e keydir (l0 # ls) js lg =
     (Inl (IndexOutOfRange 1 0), lg @ [InvalidLine (TrimSpace l0)])"
  by (simp add: index_def Let_def)

text \<open>
  C6. A jumpfile with a line that is neither blank nor a comment and does not match the
  jump expression should be read to the end, the line logged and left out. The code
  logs the line and then indexes the empty match: on the file with the lines
  \<^verbatim>\<open>garbage\<close> and \<^verbatim>\<open>u@h p SSH-2.0-X\<close>, \<open>ReadJumps\<close> ends in the panic ``index out of range
  [1] with length 0'' and returns no jumps.
\<close>

theorem ReadJumps_invalid_line_panics:
  "ReadJumps os_example ''j'' ''.'' = (Panic (IndexOutOfRange 1 0), [InvalidLine ''garbage''])"
  by (simp add: ReadJumps_def os_example_def TrimSpace_def unicode_space_def HasPrefix_def
        JUMPRE_FindStringSubmatch_def index_def Let_def)

subsection \<open>Host and port\<close>







subsection \<open>The chain builder\<close>



lemmas body_defs = MakeSSHConns_body_def Let_def removeLastJump_def lastOf_def testExit_def
lemmas body_splits = option.splits sum.splits prod.splits if_splits











lemma body_fresh:
  "MakeSSHConns_body w njump kaint E j i d cs tr = Next d' cs' tr' \<Longrightarrow>
   fresh_chain i cs \<Longrightarrow> fresh_chain (Suc i) cs'"
  by (auto simp: body_defs fresh_chain_def distinct_butlast less_Suc_eq list_all_iff
           split: body_splits dest: in_set_butlastD)

lemma loop_fresh:
  "MakeSSHConns_loop w njump kaint E js i d cs tr = Next d' cs' tr' \<Longrightarrow>
   fresh_chain i cs \<Longrightarrow> distinct cs'"
proof (induction js arbitrary: i d cs tr)
  case Nil
  then show ?case by (simp add: fresh_chain_def)
next
  case (Cons j js)
  then show ?case
    by (cases "MakeSSHConns_body w njump kaint E j i d cs tr") (auto dest: body_fresh)
qed



lemma body_down:
  "\<not> ctxErr w i \<Longrightarrow> dialErr w i \<noteq> None \<or> \<not> handshakeOK w i \<Longrightarrow>
   (\<exists>tr'. MakeSSHConns_body w njump kaint E j i NetDialer [] tr = Next NetDialer [] tr')
   \<or> (\<exists>p tr'. MakeSSHConns_body w njump kaint E j i NetDialer [] tr = Return (Panic p) tr')"
  by (auto simp: body_defs split: body_splits)

lemma loop_down:
  "(\<forall>k<length js. \<not> ctxErr w (i + k) \<and> (dialErr w (i + k) \<noteq> None \<or> \<not> handshakeOK w (i + k))) \<Longrightarrow>
   (\<exists>tr'. MakeSSHConns_loop w njump kaint E js i NetDialer [] tr = Next NetDialer [] tr')
   \<or> (\<exists>p tr'. MakeSSHConns_loop w njump kaint E js i NetDialer [] tr = Return (Panic p) tr')"
proof (induction js arbitrary: i tr)
  case Nil
  then show ?case by simp
next
  case (Cons j js)
  from Cons.prems have h0: "\<not> ctxErr w i" "dialErr w i \<noteq> None \<or> \<not> handshakeOK w i"
    by force+
  from Cons.prems have hs: "\<forall>k<length js. \<not> ctxErr w (Suc i + k) \<and> (dialErr w (Suc i + k) \<noteq> None \<or> \<not> handshakeOK w (Suc i + k))"
    by force
  from body_down [OF h0, of njump kaint E j tr] show ?case
  proof (elim disjE exE)
    fix tr' assume "MakeSSHConns_body w njump kaint E j i NetDialer [] tr = Next NetDialer [] tr'"
    with Cons.IH [OF hs, of tr'] show ?thesis by simp
  next
    fix p tr' assume "MakeSSHConns_body w njump kaint E j i NetDialer [] tr = Return (Panic p) tr'"
    then show ?thesis by simp
  qed
qed

lemma filter_last_distinct:
  "distinct cs \<Longrightarrow> cs \<noteq> [] \<Longrightarrow> filter (\<lambda>x. x \<noteq> last cs) cs = butlast cs"
  by (induction cs rule: rev_induct) (auto simp: filter_id_conv)

lemma track_CloseJumps:
  "set cl \<subseteq> set cs \<Longrightarrow> foldl track cl (CloseJumps cs) = []"
proof (induction cs arbitrary: cl rule: rev_induct)
  case Nil
  then show ?case by (simp add: CloseJumps_def)
next
  case (snoc c cs)
  have "set (filter (\<lambda>x. x \<noteq> c) cl) \<subseteq> set cs" using snoc.prems by auto
  from snoc.IH [OF this] show ?case by (simp add: CloseJumps_def)
qed

lemma body_open_next:
  "MakeSSHConns_body w njump kaint E j i d cs tr = Next d' cs' tr' \<Longrightarrow>
   openClients tr = cs \<Longrightarrow> fresh_chain i cs \<Longrightarrow> openClients tr' = cs'"
  by (auto simp: body_defs openClients_def fresh_chain_def list_all_iff filter_last_distinct filter_id_conv
        split: body_splits)

lemma body_open_return:
  "MakeSSHConns_body w njump kaint E j i d cs tr = Return r tr' \<Longrightarrow>
   openClients tr = cs \<Longrightarrow> fresh_chain i cs \<Longrightarrow>
   (case r of Ok cs' \<Rightarrow> openClients tr' = cs' | Err e \<Rightarrow> openClients tr' = [] | Panic p \<Rightarrow> True)"
  by (auto simp: body_defs openClients_def fresh_chain_def list_all_iff filter_last_distinct filter_id_conv
        track_CloseJumps
        split: body_splits go_result.splits)


lemma loop_open_next:
  "MakeSSHConns_loop w njump kaint E js i d cs tr = Next d' cs' tr' \<Longrightarrow>
   openClients tr = cs \<Longrightarrow> fresh_chain i cs \<Longrightarrow> openClients tr' = cs'"
proof (induction js arbitrary: i d cs tr)
  case Nil
  then show ?case by simp
next
  case (Cons j js)
  show ?case
  proof (cases "MakeSSHConns_body w njump kaint E j i d cs tr")
    case (Return r0 t0)
    with Cons.prems(1) show ?thesis by simp
  next
    case (Next d1 cs1 t1)
    with Cons.prems(1) have l: "MakeSSHConns_loop w njump kaint E js (i + 1) d1 cs1 t1 = Next d' cs' tr'"
      by simp
    have o: "openClients t1 = cs1" using body_open_next [OF Next Cons.prems(2,3)] .
    have f: "fresh_chain (i + 1) cs1" using body_fresh [OF Next Cons.prems(3)] by simp
    from Cons.IH [OF l o f] show ?thesis .
  qed
qed

lemma body_return_err:
  "MakeSSHConns_body w njump kaint E j i d cs tr = Return (Err e) tr' \<Longrightarrow> e = Interrupt"
  by (auto simp: body_defs split: body_splits)

lemma loop_return_err:
  "MakeSSHConns_loop w njump kaint E js i d cs tr = Return (Err e) tr' \<Longrightarrow> e = Interrupt"
proof (induction js arbitrary: i d cs tr)
  case Nil
  then show ?case by simp
next
  case (Cons j js)
  then show ?case
    by (cases "MakeSSHConns_body w njump kaint E j i d cs tr") (auto dest: body_return_err)
qed

lemma loop_open_return:
  "MakeSSHConns_loop w njump kaint E js i d cs tr = Return r tr' \<Longrightarrow>
   openClients tr = cs \<Longrightarrow> fresh_chain i cs \<Longrightarrow>
   (case r of Ok cs' \<Rightarrow> openClients tr' = cs' | Err e \<Rightarrow> openClients tr' = [] | Panic p \<Rightarrow> True)"
proof (induction js arbitrary: i d cs tr)
  case Nil
  then show ?case by simp
next
  case (Cons j js)
  show ?case
  proof (cases "MakeSSHConns_body w njump kaint E j i d cs tr")
    case (Return r0 t0)
    with Cons.prems(1) have "r0 = r" "t0 = tr'" by simp_all
    with Return body_open_return [of w njump kaint E j i d cs tr r tr'] Cons.prems(2,3)
    show ?thesis by simp
  next
    case (Next d1 cs1 t1)
    with Cons.prems(1) have l: "MakeSSHConns_loop w njump kaint E js (i + 1) d1 cs1 t1 = Return r tr'"
      by simp
    have o: "openClients t1 = cs1" using body_open_next [OF Next Cons.prems(2,3)] .
    have f: "fresh_chain (i + 1) cs1" using body_fresh [OF Next Cons.prems(3)] by simp
    from Cons.IH [OF l o f] show ?thesis .
  qed
qed

lemmas eval_defs = MakeSSHConns_def MakeSSHConns_body_def hostWithPort_def SplitHostPort_def
  last_index_def first_index_def JoinHostPort_def DEFPORT_def bracket_check_def
  lastOf_def testExit_def removeLastJump_def CloseJumps_def isSSHForwardErr_def HasSuffix_def
  openClients_def



text \<open>
  C1. When the builder returns an error, every client it made should have been closed.
  The code closes the chain when it sees the cancellation inside the loop and when the
  jumps do not suffice, and no client is open then. With the error
  \<^verbatim>\<open>no working jumps found\<close> exactly one client is left open; and with the cancellation
  seen at the check after the loop, the chain that the loop has built is left open as
  it is.
\<close>

theorem MakeSSHConns_error_open_clients:
  assumes "MakeSSHConns w jumps njump kaint E = (Err e, tr)"
  shows "(\<forall>a b. e = InsufficientJumps a b \<longrightarrow> openClients tr = [])
    \<and> (e = NoWorkingJumps \<longrightarrow> length (openClients tr) = 1)
    \<and> (e = Interrupt \<longrightarrow> openClients tr = [] \<or>
          (\<exists>d. MakeSSHConns_loop w njump kaint E jumps 0 NetDialer [] [] = Next d (openClients tr) tr))"
proof (cases "MakeSSHConns_loop w njump kaint E jumps 0 NetDialer [] []")
  case (Return r t)
  with assms have rt: "r = Err e" "t = tr" by (simp_all add: MakeSSHConns_def)
  have "openClients [] = []" by (simp add: openClients_def)
  moreover have "fresh_chain 0 []" by (simp add: fresh_chain_def)
  ultimately have "openClients tr = []"
    using loop_open_return [of w njump kaint E jumps 0 NetDialer "[]" "[]" "Err e" tr] Return rt
    by simp
  moreover have "e = Interrupt" using loop_return_err [of w njump kaint E jumps 0 NetDialer "[]" "[]" e tr] Return rt
    by simp
  ultimately show ?thesis by simp
next
  case (Next d cs t)
  have o0: "openClients [] = []" by (simp add: openClients_def)
  have f0: "fresh_chain 0 []" by (simp add: fresh_chain_def)
  have o: "openClients t = cs" using loop_open_next [OF Next o0 f0] .
  have ins: "\<forall>a b. e = InsufficientJumps a b \<longrightarrow> openClients tr = []"
    using assms Next o
    by (auto simp: MakeSSHConns_def lastOf_def testExit_def removeLastJump_def Let_def
          openClients_def track_CloseJumps split: if_splits)
  have nw: "e = NoWorkingJumps \<longrightarrow> length (openClients tr) = 1"
    using assms Next o
    by (auto simp: MakeSSHConns_def lastOf_def testExit_def removeLastJump_def Let_def
          openClients_def split: if_splits)
  have it: "e = Interrupt \<longrightarrow> (\<exists>d. MakeSSHConns_loop w njump kaint E jumps 0 NetDialer [] [] = Next d (openClients tr) tr)"
    using assms Next o
    by (auto simp: MakeSSHConns_def lastOf_def testExit_def removeLastJump_def Let_def
          split: if_splits)
  from ins nw it show ?thesis by blast
qed

theorem MakeSSHConns_error_open_clients_witness:
  "fst (MakeSSHConns (world_up (\<lambda>i. i = 1) (\<lambda>i. False)) [jump1] 0 1 ''e:443'') = Err Interrupt
   \<and> openClients (snd (MakeSSHConns (world_up (\<lambda>i. i = 1) (\<lambda>i. False)) [jump1] 0 1 ''e:443'')) = [0]
   \<and> fst (MakeSSHConns (world_up (\<lambda>i. False) (\<lambda>i. False)) [jump1] 0 1 ''e:443'') = Err NoWorkingJumps
   \<and> length (openClients (snd (MakeSSHConns (world_up (\<lambda>i. False) (\<lambda>i. False)) [jump1] 0 1 ''e:443''))) = 1
   \<and> openClients (snd (MakeSSHConns (world_up (\<lambda>i. False) (\<lambda>i. False)) [jump1] 0 1 ''e:443'')) = [0]"
proof -
  have "fst (MakeSSHConns (world_up (\<lambda>i. False) (\<lambda>i. False)) [jump1] 0 1 ''e:443'') = Err NoWorkingJumps"
    by (simp add: eval_defs world_up_def jump1_def)
  then have "MakeSSHConns (world_up (\<lambda>i. False) (\<lambda>i. False)) [jump1] 0 1 ''e:443'' =
      (Err NoWorkingJumps, snd (MakeSSHConns (world_up (\<lambda>i. False) (\<lambda>i. False)) [jump1] 0 1 ''e:443''))"
    by (metis prod.collapse)
  from MakeSSHConns_error_open_clients [OF this]
  have "length (openClients (snd (MakeSSHConns (world_up (\<lambda>i. False) (\<lambda>i. False)) [jump1] 0 1 ''e:443''))) = 1"
    by simp
  then show ?thesis by (simp add: eval_defs world_up_def jump1_def)
qed

text \<open>
  On success nothing but the chain stays open: the clients open when the builder
  returns a chain are the clients of that chain, in order.
\<close>

theorem MakeSSHConns_ok_open_clients:
  assumes "MakeSSHConns w jumps njump kaint E = (Ok cs, tr)"
  shows "openClients tr = cs"
proof (cases "MakeSSHConns_loop w njump kaint E jumps 0 NetDialer [] []")
  case (Return r t)
  with assms have rt: "r = Ok cs" "t = tr" by (simp_all add: MakeSSHConns_def)
  have "openClients [] = []" by (simp add: openClients_def)
  moreover have "fresh_chain 0 []" by (simp add: fresh_chain_def)
  ultimately show ?thesis
    using loop_open_return [of w njump kaint E jumps 0 NetDialer "[]" "[]" "Ok cs" tr] Return rt
    by simp
next
  case (Next d cs0 t)
  have o0: "openClients [] = []" by (simp add: openClients_def)
  have f0: "fresh_chain 0 []" by (simp add: fresh_chain_def)
  have o: "openClients t = cs0" using loop_open_next [OF Next o0 f0] .
  have dist: "distinct cs0" using loop_fresh [OF Next f0] .
  show ?thesis
    using assms Next o dist
    by (auto simp: MakeSSHConns_def lastOf_def testExit_def removeLastJump_def Let_def
          openClients_def filter_last_distinct split: if_splits)
qed

theorem MakeSSHConns_ok_open_clients_witness:
  "openClients (snd (MakeSSHConns (world_up (\<lambda>i. False) (\<lambda>i. True)) [jump1, jump2] 2 1 ''e:443'')) = [0, 1]"
proof -
  have "fst (MakeSSHConns (world_up (\<lambda>i. False) (\<lambda>i. True)) [jump1, jump2] 2 1 ''e:443'') = Ok [0, 1]"
    by (simp add: eval_defs world_up_def jump1_def jump2_def)
  then have "MakeSSHConns (world_up (\<lambda>i. False) (\<lambda>i. True)) [jump1, jump2] 2 1 ''e:443'' =
      (Ok [0, 1], snd (MakeSSHConns (world_up (\<lambda>i. False) (\<lambda>i. True)) [jump1, jump2] 2 1 ''e:443''))"
    by (metis prod.collapse)
  then show ?thesis by (rule MakeSSHConns_ok_open_clients)
qed




text \<open>
  C4. With no limit on the number of jumps, when no jump yields a client and no
  cancellation is seen, the builder should return the error \<^verbatim>\<open>no working jumps found\<close>.
  The code reaches \<^verbatim>\<open>cs[len(cs)-1]\<close> with the empty chain: whenever every dial or
  handshake fails and the context is never cancelled, the call ends in a panic, and
  never returns that error.
\<close>

theorem MakeSSHConns_no_working_jump_panics:
  "(\<forall>k\<le>length jumps. \<not> ctxErr w k) \<Longrightarrow>
   (\<forall>k<length jumps. dialErr w k \<noteq> None \<or> \<not> handshakeOK w k) \<Longrightarrow>
   \<exists>p. fst (MakeSSHConns w jumps 0 kaint E) = Panic p"
proof -
  assume a: "\<forall>k\<le>length jumps. \<not> ctxErr w k" and b: "\<forall>k<length jumps. dialErr w k \<noteq> None \<or> \<not> handshakeOK w k"
  have "\<forall>k<length jumps. \<not> ctxErr w (0 + k) \<and> (dialErr w (0 + k) \<noteq> None \<or> \<not> handshakeOK w (0 + k))"
    using a b by simp
  from loop_down [OF this, of 0 kaint E "[]"] a show ?thesis
    by (auto simp: MakeSSHConns_def lastOf_def)
qed

theorem MakeSSHConns_no_working_jump_panics_witness:
  "(\<exists>p. fst (MakeSSHConns world_down [jump1] 0 1 ''e:443'') = Panic p)
   \<and> MakeSSHConns world_down [jump1] 0 1 ''e:443'' =
       (Panic (IndexOutOfRange (- 1) 0), [DialWithTimeout NetDialer ''target1:22''])"
proof -
  have a: "\<forall>k\<le>length [jump1]. \<not> ctxErr world_down k" by (simp add: world_down_def)
  have b: "\<forall>k<length [jump1]. dialErr world_down k \<noteq> None \<or> \<not> handshakeOK world_down k"
    by (simp add: world_down_def)
  have "MakeSSHConns world_down [jump1] 0 1 ''e:443'' =
       (Panic (IndexOutOfRange (- 1) 0), [DialWithTimeout NetDialer ''target1:22''])"
    by (simp add: eval_defs world_down_def jump1_def)
  with MakeSSHConns_no_working_jump_panics [OF a b, of 1 "''e:443''"] show ?thesis by simp
qed

subsection \<open>The client configuration\<close>

text \<open>
  C5. The handshake should offer the password, then keyboard-interactive, then the key of
  the record when it has one. The configuration the code builds offers the password and
  keyboard-interactive and nothing else, also for a record that has a key; and its
  keyboard-interactive function returns one answer, the password, whatever the number
  of questions.
\<close>

theorem clientConfig_offers_no_key:
  "map auth_kind_of (Auth (clientConfig (j\<lparr>key := Some k\<rparr>))) = [PasswordAuth, KeyboardInteractiveAuth]
   \<and> PublicKeyAuth \<notin> set (map auth_kind_of (Auth (clientConfig (j\<lparr>key := Some k\<rparr>))))
   \<and> ki j user instruction questions echos = ([password j], None)"
  by (simp add: clientConfig_def ki_def)

subsection \<open>dialWithTimeout\<close>

lemma dial_step_inv: "dial_inv s \<Longrightarrow> dial_step ev s = Some s' \<Longrightarrow> dial_inv s'"
  by (cases ev)
     (auto simp: dial_inv_def dial_step_def
           split: if_splits dial_goroutine.splits dial_return.splits)

lemma dial_run_inv: "dial_inv s \<Longrightarrow> dial_run evs s = Some s' \<Longrightarrow> dial_inv s'"
proof (induction evs arbitrary: s)
  case Nil
  then show ?case by simp
next
  case (Cons ev evs)
  then show ?case by (auto split: option.splits dest: dial_step_inv)
qed

lemma dial_step_gave_up: "dial_step ev s = Some s' \<Longrightarrow> gave_up s \<Longrightarrow> gave_up s'"
  by (cases ev)
     (auto simp: gave_up_def dial_step_def
           split: if_splits dial_goroutine.splits dial_return.splits dial_caller.splits sum.splits)

lemma dial_run_gave_up: "dial_run evs s = Some s' \<Longrightarrow> gave_up s \<Longrightarrow> gave_up s'"
  by (induction evs arbitrary: s) (auto split: option.splits dest: dial_step_gave_up)

lemma dial_step_fires:
  "dial_step ev s = Some s' \<Longrightarrow> ev = TimeAfter \<or> ev = CtxDone \<Longrightarrow> gave_up s'"
  by (auto simp: gave_up_def dial_step_def split: if_splits)

lemma dial_run_fires:
  "dial_run evs s = Some s' \<Longrightarrow> TimeAfter \<in> set evs \<or> CtxDone \<in> set evs \<Longrightarrow> gave_up s'"
proof (induction evs arbitrary: s)
  case Nil
  then show ?case by simp
next
  case (Cons ev evs)
  from Cons.prems(1) obtain s1 where s1: "dial_step ev s = Some s1" "dial_run evs s1 = Some s'"
    by (auto split: option.splits)
  show ?case
  proof (cases "ev = TimeAfter \<or> ev = CtxDone")
    case True
    from dial_step_fires [OF s1(1) True] dial_run_gave_up [OF s1(2)] show ?thesis by simp
  next
    case False
    with Cons.prems(2) have "TimeAfter \<in> set evs \<or> CtxDone \<in> set evs" by auto
    from Cons.IH [OF s1(2) this] show ?thesis .
  qed
qed

text \<open>
  C3. When the timer or the cancellation fires before the dial returns, the connection
  the dial still makes should be closed by \<^verbatim>\<open>killConnFromChannel\<close>, and no connection
  is handed back to the caller. The second holds: in no run in which the timer or the
  cancellation has fired has the caller returned a connection. The first does not: the
  dialing goroutine first sends the error on \<^verbatim>\<open>ech\<close>, which nobody receives once the
  caller has returned, so it never sends the connection on \<^verbatim>\<open>worky\<close>, and in no state
  that any schedule reaches has a connection been closed.
\<close>

theorem dialWithTimeout_never_closes:
  assumes "dial_run evs dial_init = Some s"
  shows "closedConns s = [] \<and>
     (TimeAfter \<in> set evs \<or> CtxDone \<in> set evs \<longrightarrow> (\<forall>c. caller s \<noteq> Returned (Inr c)))"
proof -
  have "dial_inv dial_init" by (simp add: dial_inv_def dial_init_def)
  from dial_run_inv [OF this assms] have a: "closedConns s = []" by (simp add: dial_inv_def)
  have "TimeAfter \<in> set evs \<or> CtxDone \<in> set evs \<longrightarrow> (\<forall>c. caller s \<noteq> Returned (Inr c))"
    using dial_run_fires [OF assms] by (auto simp: gave_up_def)
  with a show ?thesis by simp
qed

theorem dialWithTimeout_never_closes_witness:
  "dial_run [TimeAfter, DialReturns (DialConn 7)] dial_init =
     Some \<lparr>goroutine = SendingErr (DialConn 7), caller = Returned (Inl Timeout),
           killer = ReceivingFromChannel, closedConns = []\<rparr>
   \<and> closedConns \<lparr>goroutine = SendingErr (DialConn 7), caller = Returned (Inl Timeout),
           killer = ReceivingFromChannel, closedConns = []\<rparr> = []
   \<and> dial_step OnEch \<lparr>goroutine = SendingErr (DialConn 7), caller = Returned (Inl Timeout),
           killer = ReceivingFromChannel, closedConns = []\<rparr> = None
   \<and> dial_step OnWorky \<lparr>goroutine = SendingErr (DialConn 7), caller = Returned (Inl Timeout),
           killer = ReceivingFromChannel, closedConns = []\<rparr> = None"
proof -
  have r: "dial_run [TimeAfter, DialReturns (DialConn 7)] dial_init =
     Some \<lparr>goroutine = SendingErr (DialConn 7), caller = Returned (Inl Timeout),
           killer = ReceivingFromChannel, closedConns = []\<rparr>"
    by (simp add: dial_step_def dial_init_def)
  from dialWithTimeout_never_closes [OF r] r show ?thesis
    by (simp add: dial_step_def)
qed

subsection \<open>The keepalive driver\<close>

lemma ka_first_error:
  "(\<forall>i<m. \<not> reqErr (n + i)) \<Longrightarrow> reqErr (n + m) \<Longrightarrow> m < fuel \<Longrightarrow>
   sendKeepalives_loop reqErr c iv fuel n tr =
     Some (tr @ concat (replicate m [SendRequest c ''keepalive@openssh.com'' True [], Sleep iv])
              @ [SendRequest c ''keepalive@openssh.com'' True []])"
proof (induction m arbitrary: fuel n tr)
  case 0
  then obtain f where "fuel = Suc f" by (cases fuel) auto
  with 0 show ?case by simp
next
  case (Suc m)
  then obtain f where f: "fuel = Suc f" by (cases fuel) auto
  from Suc.prems have n0: "\<not> reqErr n" by (metis add.right_neutral zero_less_Suc)
  have a: "\<forall>i<m. \<not> reqErr (Suc n + i)" using Suc.prems(1) by (metis Suc_less_eq add_Suc_shift)
  have b: "reqErr (Suc n + m)" using Suc.prems(2) by simp
  have c: "m < f" using Suc.prems(3) f by simp
  show ?case using Suc.IH [OF a b c] n0 f by (simp add: Let_def)
qed

lemma ka_no_error:
  "(\<forall>i. \<not> reqErr i) \<Longrightarrow> sendKeepalives_loop reqErr c iv fuel n tr = None"
  by (induction fuel arbitrary: n tr) (auto simp: Let_def)

text \<open>
  C8. The keepalive driver sends the global request \<^verbatim>\<open>keepalive@openssh.com\<close> with
  want-reply set and no payload, and sleeps for the interval \<open>K\<close> after every request that
  succeeds; the first request that returns an error ends the loop, and \<^verbatim>\<open>cancel\<close> is
  called then: when the request number \<open>m\<close> is the first to fail, the driver returns
  (with any fuel above \<open>m\<close>) after \<open>m\<close> rounds of request and sleep, one more request
  and the call of \<^verbatim>\<open>cancel\<close>; and while no request fails it never returns.
\<close>

theorem sendKeepalives_trace:
  "((\<forall>i<m. \<not> reqErr i) \<and> reqErr m \<and> m < fuel \<longrightarrow>
     sendKeepalives reqErr c K fuel =
       Some (concat (replicate m [SendRequest c ''keepalive@openssh.com'' True [], Sleep K])
              @ [SendRequest c ''keepalive@openssh.com'' True [], Cancel]))
   \<and> ((\<forall>i. \<not> reqErr i) \<longrightarrow> sendKeepalives reqErr c K fuel = None)"
  using ka_first_error [of m reqErr 0 fuel c K "[]"] ka_no_error [of reqErr c K fuel 0 "[]"]
  by (simp add: sendKeepalives_def)

theorem sendKeepalives_trace_witness:
  "sendKeepalives (\<lambda>n. n = Suc (Suc 0)) 0 1 5 =
     Some [SendRequest 0 ''keepalive@openssh.com'' True [], Sleep 1,
           SendRequest 0 ''keepalive@openssh.com'' True [], Sleep 1,
           SendRequest 0 ''keepalive@openssh.com'' True [], Cancel]
   \<and> sendKeepalives (\<lambda>n. False) 0 1 5 = None"
  using sendKeepalives_trace [of "Suc (Suc 0)" "\<lambda>n. n = Suc (Suc 0)" 5 0 1]
    sendKeepalives_trace [of 0 "\<lambda>n. False" 5 0 1]
  by (simp add: less_Suc_eq)

subsection \<open>The connection registry\<close>

text \<open>
  C9 as stated does not hold of the code: the second \<open>CloseConn\<close> on a handle calls \<^verbatim>\<open>Close\<close>
  on it again and returns the error of the closed handle.
\<close>

theorem CloseConn_twice_counterexample:
  "fst (CloseConn 1 (snd (CloseConn 1 registry1))) = Some ErrClosed
   \<and> closeCalls (snd (CloseConn 1 registry1)) = [1]
   \<and> closeCalls (snd (CloseConn 1 (snd (CloseConn 1 registry1)))) = [1, 1]"
  by (simp add: CloseConn_def closeConn_def conn_Close_def registry1_def)

text \<open>
  C9, amended. After the first \<open>CloseConn\<close> the handle is not in the registry, and the
  second \<open>CloseConn\<close> on it leaves the set of registered connections as it is; it does
  call \<^verbatim>\<open>Close\<close> on the handle once more and returns the error of that call.
\<close>

theorem CloseConn_twice:
  "CloseConn c s = (e1, s1) \<Longrightarrow> CloseConn c s1 = (e2, s2) \<Longrightarrow>
   c \<notin> conns s1 \<and> conns s2 = conns s1 \<and> closeCalls s2 = closeCalls s1 @ [c] \<and> e2 = Some ErrClosed"
  by (auto simp: CloseConn_def closeConn_def conn_Close_def)

theorem CloseConn_twice_witness:
  "1 \<notin> conns (snd (CloseConn 1 registry1))
   \<and> conns (snd (CloseConn 1 (snd (CloseConn 1 registry1)))) = conns (snd (CloseConn 1 registry1))
   \<and> closeCalls (snd (CloseConn 1 (snd (CloseConn 1 registry1)))) = closeCalls (snd (CloseConn 1 registry1)) @ [1]
   \<and> fst (CloseConn 1 (snd (CloseConn 1 registry1))) = Some ErrClosed"
  by (rule CloseConn_twice [OF surjective_pairing surjective_pairing])

end
